theory Spec2Isabelle
  imports Complex_Main
begin

section \<open>Errors\<close>

text \<open>
  The exceptions the two source files can raise, as values. A function that may raise
  returns \<open>error + 'a\<close>, with \<open>Inl\<close> for the exception.
\<close>

datatype error =
    ZeroDivisionError
  | KeyError
  | ValueError
  | AttributeError
  | TypeError
  | LookupError

section \<open>Statistical measures (analyze\_csv.py, lines 86--103)\<close>

text \<open>
  The four counts are \<open>len(...)\<close> of lists, hence natural numbers. Python's \<open>/\<close> on
  two ints is true division: it raises ZeroDivisionError when the divisor is 0, and
  otherwise returns the double nearest to the exact quotient. The model keeps the exact
  quotient as a rational; the rounding plays no part in what follows.
\<close>

definition truediv :: "nat \<Rightarrow> nat \<Rightarrow> error + rat" where
  "truediv a b = (if b = 0 then Inl ZeroDivisionError else Inr (Fract (int a) (int b)))"

record measures =
  fdr :: rat
  fpr :: rat
  f1 :: rat
  acc :: rat
  precision :: rat
  recall :: rat
  specificity :: rat

text \<open>
  The seven assignments, in the order of the script; the first division that raises ends
  the script, since nothing catches it.
\<close>

definition statistics :: "nat \<Rightarrow> nat \<Rightarrow> nat \<Rightarrow> nat \<Rightarrow> error + measures" where
  "statistics tp tn fn fp =
     (case truediv fp (fp + tp) of Inl e \<Rightarrow> Inl e | Inr v_fdr \<Rightarrow>
      case truediv fp (fp + tn) of Inl e \<Rightarrow> Inl e | Inr v_fpr \<Rightarrow>
      case truediv (2 * tp) (2 * tp + fp + fn) of Inl e \<Rightarrow> Inl e | Inr v_f1 \<Rightarrow>
      case truediv (tp + tn) (tp + tn + fp + fn) of Inl e \<Rightarrow> Inl e | Inr v_acc \<Rightarrow>
      case truediv tp (tp + fp) of Inl e \<Rightarrow> Inl e | Inr v_precision \<Rightarrow>
      case truediv tp (tp + fn) of Inl e \<Rightarrow> Inl e | Inr v_recall \<Rightarrow>
      case truediv tn (tn + fp) of Inl e \<Rightarrow> Inl e | Inr v_specificity \<Rightarrow>
        Inr \<lparr>fdr = v_fdr, fpr = v_fpr, f1 = v_f1, acc = v_acc, precision = v_precision,
             recall = v_recall, specificity = v_specificity\<rparr>)"

section \<open>Strings\<close>

text \<open>
  A Python \<open>str\<close> is modelled as a list of characters with code points below 256.
  \<open>isspace\<close> is \<open>str.isspace\<close> on that range, \<open>strip\<close> is \<open>str.strip()\<close>,
  \<open>lower\<close> is \<open>str.lower()\<close> and \<open>replace_Z\<close> is \<open>s.replace("Z", "+00:00")\<close>.
\<close>

definition isspace :: "char \<Rightarrow> bool" where
  "isspace c = ((of_char c :: nat) \<in> {9, 10, 11, 12, 13, 28, 29, 30, 31, 32, 133, 160})"

definition strip :: "string \<Rightarrow> string" where
  "strip s = rev (dropWhile isspace (rev (dropWhile isspace s)))"

definition lower_char :: "char \<Rightarrow> char" where
  "lower_char c =
     (let n = (of_char c :: nat)
      in if (65 \<le> n \<and> n \<le> 90) \<or> (192 \<le> n \<and> n \<le> 222 \<and> n \<noteq> 215)
         then char_of (n + 32) else c)"

definition lower :: "string \<Rightarrow> string" where
  "lower s = map lower_char s"

definition replace_Z :: "string \<Rightarrow> string" where
  "replace_Z s = concat (map (\<lambda>c. if c = CHR ''Z'' then ''+00:00'' else [c]) s)"

section \<open>Data models (models.py)\<close>

subsection \<open>The two enumerations\<close>

datatype OCMState =
    VALIDATING | WAITING | PENDING | INSTALLING | READY | ERROR | UNINSTALLING
  | UNKNOWN | POWERING_DOWN | RESUMING | HIBERNATING

fun OCMState_value :: "OCMState \<Rightarrow> string" where
  "OCMState_value VALIDATING = ''validating''"
| "OCMState_value WAITING = ''waiting''"
| "OCMState_value PENDING = ''pending''"
| "OCMState_value INSTALLING = ''installing''"
| "OCMState_value READY = ''ready''"
| "OCMState_value ERROR = ''error''"
| "OCMState_value UNINSTALLING = ''uninstalling''"
| "OCMState_value UNKNOWN = ''unknown''"
| "OCMState_value POWERING_DOWN = ''powering_down''"
| "OCMState_value RESUMING = ''resuming''"
| "OCMState_value HIBERNATING = ''hibernating''"

text \<open>\<open>OCMState(s)\<close>: the member whose value is \<open>s\<close>, ValueError when there is none.\<close>

definition OCMState_of :: "string \<Rightarrow> error + OCMState" where
  "OCMState_of s =
     (if s = ''validating'' then Inr VALIDATING
      else if s = ''waiting'' then Inr WAITING
      else if s = ''pending'' then Inr PENDING
      else if s = ''installing'' then Inr INSTALLING
      else if s = ''ready'' then Inr READY
      else if s = ''error'' then Inr ERROR
      else if s = ''uninstalling'' then Inr UNINSTALLING
      else if s = ''unknown'' then Inr UNKNOWN
      else if s = ''powering_down'' then Inr POWERING_DOWN
      else if s = ''resuming'' then Inr RESUMING
      else if s = ''hibernating'' then Inr HIBERNATING
      else Inl ValueError)"

text \<open>
  The members of \<open>InFlightState\<close> carry the prefix \<open>IF_\<close> here, since \<open>PENDING\<close> is a
  member of \<open>OCMState\<close> already; their values are the source's.
\<close>

datatype InFlightState = IF_PENDING | IF_RUNNING | IF_PASSED | IF_FAILED

fun InFlightState_value :: "InFlightState \<Rightarrow> string" where
  "InFlightState_value IF_PENDING = ''pending''"
| "InFlightState_value IF_RUNNING = ''running''"
| "InFlightState_value IF_PASSED = ''passed''"
| "InFlightState_value IF_FAILED = ''failed''"

subsection \<open>Values of the standard library\<close>

text \<open>
  A \<open>datetime\<close> is its wall-clock reading in microseconds together with its UTC offset
  in microseconds, which is absent for a naive datetime. An order comparison of two
  datetimes compares the wall clocks when both are naive and the UTC instants when both
  are aware, and raises TypeError when one is naive and the other aware.
\<close>

record datetime =
  wall :: int
  utcoffset :: "int option"

definition instant :: "datetime \<Rightarrow> int" where
  "instant d = (case utcoffset d of None \<Rightarrow> wall d | Some off \<Rightarrow> wall d - off)"

definition comparable :: "datetime \<Rightarrow> datetime \<Rightarrow> bool" where
  "comparable a b = ((utcoffset a = None) = (utcoffset b = None))"

definition datetime_lt :: "datetime \<Rightarrow> datetime \<Rightarrow> error + bool" where
  "datetime_lt a b = (if comparable a b then Inr (instant a < instant b) else Inl TypeError)"

definition datetime_gt :: "datetime \<Rightarrow> datetime \<Rightarrow> error + bool" where
  "datetime_gt a b = (if comparable a b then Inr (instant a > instant b) else Inl TypeError)"



text \<open>
  The value \<open>json.loads\<close> returns. Iterating over it (\<open>for s in ...\<close>) yields the
  elements of a list, the distinct keys of a dict in order of first occurrence and the
  one-character strings of a str; any other value is not iterable (TypeError).
\<close>

datatype json =
    JNull | JBool bool | JNum rat | JStr string | JArr "json list"
  | JObj "(string \<times> json) list"

definition iterate :: "json \<Rightarrow> error + json list" where
  "iterate j =
     (case j of
        JArr xs \<Rightarrow> Inr xs
      | JObj kvs \<Rightarrow> Inr (map JStr (rev (remdups (rev (map fst kvs)))))
      | JStr s \<Rightarrow> Inr (map (\<lambda>c. JStr [c]) s)
      | _ \<Rightarrow> Inl TypeError)"

text \<open>
  The functions \<open>from_dict\<close> calls and that are taken as given: \<open>datetime.fromisoformat\<close>
  and \<open>json.loads\<close> of the standard library (\<open>None\<close> when they raise ValueError), and
  \<open>is_valid_url\<close> of the module \<open>util\<close>.
\<close>

record library =
  fromisoformat :: "string \<Rightarrow> datetime option"
  json_loads :: "string \<Rightarrow> json option"
  is_valid_url :: "string option \<Rightarrow> bool"

subsection \<open>Helpers of the module util\<close>

text \<open>
  Modelled from the spec: \<open>is_nully_str\<close> of the module \<open>util\<close>, which is not among the
  sources. The spec calls a field blank or absent, and a cluster id non-empty once
  trimmed: the argument is nully when it is \<open>None\<close> or empty after trimming.
\<close>

definition is_nully_str :: "string option \<Rightarrow> bool" where
  "is_nully_str v = (case v of None \<Rightarrow> True | Some s \<Rightarrow> strip s = [])"

text \<open>
  Modelled from the spec: \<open>csv_bool_to_bool\<close> of the module \<open>util\<close>, which is not among the
  sources. Spec: a blank or absent value is unknown, a case-insensitive "true" or "false"
  is the definite boolean, any other token is a hard parse failure. Blank is the test
  of \<open>is_nully_str\<close>.
\<close>

definition csv_bool_to_bool :: "string option \<Rightarrow> error + bool option" where
  "csv_bool_to_bool v =
     (case v of
        None \<Rightarrow> Inr None
      | Some s \<Rightarrow>
          if is_nully_str (Some s) then Inr None
          else if lower s = ''true'' then Inr (Some True)
          else if lower s = ''false'' then Inr (Some False)
          else Inl ValueError)"

subsection \<open>ClusterVerifierRecord\<close>

record ClusterVerifierRecord =
  timestamp :: datetime
  cid :: string
  cname :: "string option"
  ocm_state :: "OCMState option"
  ocm_inflight_states :: "InFlightState list option"
  found_verifier_s3_logs :: "bool option"
  found_all_tests_passed :: "bool option"
  found_egress_failures :: "bool option"
  log_download_url :: "string option"

text \<open>\<open>__gt__\<close> and \<open>__lt__\<close> compare the timestamps.\<close>

definition cvr_gt :: "ClusterVerifierRecord \<Rightarrow> ClusterVerifierRecord \<Rightarrow> error + bool" where
  "cvr_gt self other = datetime_gt (timestamp self) (timestamp other)"

definition cvr_lt :: "ClusterVerifierRecord \<Rightarrow> ClusterVerifierRecord \<Rightarrow> error + bool" where
  "cvr_lt self other = datetime_lt (timestamp self) (timestamp other)"

subsection \<open>from\_dict\<close>

text \<open>
  A row of \<open>csv.DictReader\<close>: a column that is missing from the dict gives \<open>None\<close>
  (subscripting raises KeyError); a column of a short row holds Python's \<open>None\<close>, here
  \<open>Some None\<close>; otherwise the column holds a str.
\<close>

type_synonym row = "string \<Rightarrow> string option option"

definition and_then :: "error + 'a \<Rightarrow> ('a \<Rightarrow> error + 'b) \<Rightarrow> error + 'b" where
  "and_then m f = (case m of Inl e \<Rightarrow> Inl e | Inr x \<Rightarrow> f x)"

definition getitem :: "row \<Rightarrow> string \<Rightarrow> error + string option" where
  "getitem in_dict k = (case in_dict k of None \<Rightarrow> Inl KeyError | Some v \<Rightarrow> Inr v)"

text \<open>Calling a str method on a value: AttributeError when the value is \<open>None\<close>.\<close>

definition str_method :: "(string \<Rightarrow> 'a) \<Rightarrow> string option \<Rightarrow> error + 'a" where
  "str_method f v = (case v of None \<Rightarrow> Inl AttributeError | Some s \<Rightarrow> Inr (f s))"

text \<open>Lines 106--111: the mandatory fields.\<close>

definition mandatory_fields :: "library \<Rightarrow> row \<Rightarrow> error + datetime \<times> string" where
  "mandatory_fields lib in_dict =
     and_then (getitem in_dict ''timestamp'') (\<lambda>v.
     and_then (str_method replace_Z v) (\<lambda>s.
     and_then (case fromisoformat lib s of None \<Rightarrow> Inl ValueError | Some t \<Rightarrow> Inr t) (\<lambda>ts.
     and_then (getitem in_dict ''cid'') (\<lambda>v.
     and_then (str_method strip v) (\<lambda>c.
       if is_nully_str (Some c) then Inl ValueError else Inr (ts, c))))))"

text \<open>
  Lines 114--124: the body of the \<open>try\<close>, and the \<open>except\<close> clause that turns an
  AttributeError into a ValueError and lets every other exception through.
\<close>

definition try_body ::
  "row \<Rightarrow> error + string option \<times> bool option \<times> bool option \<times> bool option \<times> string \<times> string"
where
  "try_body in_dict =
     and_then (getitem in_dict ''cname'') (\<lambda>v.
     and_then (if is_nully_str v then Inr None
               else and_then (getitem in_dict ''cname'') (\<lambda>v'.
                    and_then (str_method strip v') (\<lambda>s. Inr (Some s)))) (\<lambda>name.
     and_then (getitem in_dict ''found_verifier_s3_logs'') (\<lambda>v.
     and_then (csv_bool_to_bool v) (\<lambda>logs.
     and_then (getitem in_dict ''found_all_tests_passed'') (\<lambda>v.
     and_then (csv_bool_to_bool v) (\<lambda>passed.
     and_then (getitem in_dict ''found_egress_failures'') (\<lambda>v.
     and_then (csv_bool_to_bool v) (\<lambda>failures.
     and_then (getitem in_dict ''ocm_state'') (\<lambda>v.
     and_then (str_method (\<lambda>s. strip (lower s)) v) (\<lambda>ocm_state_str.
     and_then (getitem in_dict ''ocm_inflight_states'') (\<lambda>v.
     and_then (str_method strip v) (\<lambda>ocm_inflight_states_str.
       Inr (name, logs, passed, failures, ocm_state_str, ocm_inflight_states_str)))))))))))))"

definition optional_fields ::
  "row \<Rightarrow> error + string option \<times> bool option \<times> bool option \<times> bool option \<times> string \<times> string"
where
  "optional_fields in_dict =
     (case try_body in_dict of Inl AttributeError \<Rightarrow> Inl ValueError | r \<Rightarrow> r)"

text \<open>\<open>InFlightState(s)\<close> for an element \<open>s\<close> of the decoded JSON value.\<close>

definition InFlightState_of :: "json \<Rightarrow> error + InFlightState" where
  "InFlightState_of x =
     (if x = JStr ''pending'' then Inr IF_PENDING
      else if x = JStr ''running'' then Inr IF_RUNNING
      else if x = JStr ''passed'' then Inr IF_PASSED
      else if x = JStr ''failed'' then Inr IF_FAILED
      else Inl ValueError)"

text \<open>\<open>list(InFlightState(s) for s in xs)\<close>: the first element that raises ends the loop.\<close>

fun InFlightState_list :: "json list \<Rightarrow> error + InFlightState list" where
  "InFlightState_list [] = Inr []"
| "InFlightState_list (x # xs) =
     and_then (InFlightState_of x) (\<lambda>st.
     and_then (InFlightState_list xs) (\<lambda>sts. Inr (st # sts)))"

text \<open>Lines 127--129 and 131--135: the two strictly typed fields.\<close>

definition parse_ocm_state :: "string \<Rightarrow> error + OCMState option" where
  "parse_ocm_state ocm_state_str =
     (if \<not> is_nully_str (Some ocm_state_str)
      then and_then (OCMState_of ocm_state_str) (\<lambda>st. Inr (Some st))
      else Inr None)"

definition parse_ocm_inflight_states ::
  "library \<Rightarrow> row \<Rightarrow> string \<Rightarrow> error + InFlightState list option" where
  "parse_ocm_inflight_states lib in_dict ocm_inflight_states_str =
     (if \<not> is_nully_str (Some ocm_inflight_states_str)
      then and_then (getitem in_dict ''ocm_inflight_states'') (\<lambda>v.
           and_then (case v of None \<Rightarrow> Inl TypeError
                     | Some raw \<Rightarrow> (case json_loads lib raw of None \<Rightarrow> Inl ValueError
                                   | Some j \<Rightarrow> Inr j)) (\<lambda>j.
           and_then (iterate j) (\<lambda>xs.
           and_then (InFlightState_list xs) (\<lambda>sts. Inr (Some sts)))))
      else Inr None)"

definition from_dict :: "library \<Rightarrow> row \<Rightarrow> error + ClusterVerifierRecord" where
  "from_dict lib in_dict =
     and_then (mandatory_fields lib in_dict) (\<lambda>(ts, c).
     and_then (optional_fields in_dict)
       (\<lambda>(name, logs, passed, failures, ocm_state_str, ocm_inflight_states_str).
     and_then (parse_ocm_state ocm_state_str) (\<lambda>state.
     and_then (parse_ocm_inflight_states lib in_dict ocm_inflight_states_str) (\<lambda>inflight.
     and_then (getitem in_dict ''log_download_url'') (\<lambda>url.
       Inr \<lparr>timestamp = ts, cid = c, cname = name, ocm_state = state,
            ocm_inflight_states = inflight, found_verifier_s3_logs = logs,
            found_all_tests_passed = passed, found_egress_failures = failures,
            log_download_url = (if is_valid_url lib url then url else None)\<rparr>)))))"

section \<open>Merging, classifying and looking up (methods of ClusterVerifierRecord)\<close>

text \<open>
  analyze\_csv.py calls \<open>__add__\<close> (through \<open>+=\<close>), \<open>get_outcome\<close> and
  \<open>is_hostedcluster\<close> on records and imports \<open>Outcome\<close>; models.py as given defines
  none of them. \<open>__add__\<close>, \<open>is_hostedcluster\<close> and \<open>Outcome\<close> are modelled from
  the spec; \<open>get_outcome\<close> is a parameter of the script.
\<close>

subsection \<open>Merge\<close>

text \<open>
  Modelled from the spec: the policy for \<open>found_egress_failures\<close> and
  \<open>found_verifier_s3_logs\<close>, which \<open>__add__\<close> (not among the sources) applies. Spec:
  sticky-true, once any observation reports true the merged value is true. Where no
  operand is true, a definite false is kept over an unknown, since merge must not
  destroy information present in only one operand.
\<close>

definition sticky_true :: "bool option \<Rightarrow> bool option \<Rightarrow> bool option" where
  "sticky_true a b =
     (if a = Some True \<or> b = Some True then Some True
      else if a = Some False \<or> b = Some False then Some False
      else None)"

text \<open>
  Modelled from the spec: the policy for \<open>found_all_tests_passed\<close>, which \<open>__add__\<close>
  (not among the sources) applies. Spec: unanimity, true only if every merged observation
  reports true; any single false makes the merged value false. An unknown next to a
  true is therefore unknown.
\<close>

definition unanimity :: "bool option \<Rightarrow> bool option \<Rightarrow> bool option" where
  "unanimity a b =
     (if a = Some False \<or> b = Some False then Some False
      else if a = Some True \<and> b = Some True then Some True
      else None)"

text \<open>
  Modelled from the spec: \<open>ClusterVerifierRecord.__add__\<close>, which is not among the
  sources. Spec, field by field: the three booleans as above; lifecycle state and
  in-flight states, the most recent observation by timestamp wins (a live signal, not
  cumulative); display name, the first non-null value wins; log URL, the most recent
  value wins. The incoming observation is the most recent one when it is greater than
  the existing record by \<open>__gt__\<close>, which raises TypeError on a naive and an aware
  timestamp; the merged record carries the timestamp of the most recent one and the
  cluster id of the existing one.
\<close>

definition merge ::
  "ClusterVerifierRecord \<Rightarrow> ClusterVerifierRecord \<Rightarrow> error + ClusterVerifierRecord" where
  "merge existing incoming =
     and_then (cvr_gt incoming existing) (\<lambda>newer.
       let recent = (if newer then incoming else existing);
           older = (if newer then existing else incoming)
       in Inr \<lparr>timestamp = timestamp recent,
               cid = cid existing,
               cname = (case cname existing of Some n \<Rightarrow> Some n | None \<Rightarrow> cname incoming),
               ocm_state = ocm_state recent,
               ocm_inflight_states = ocm_inflight_states recent,
               found_verifier_s3_logs =
                 sticky_true (found_verifier_s3_logs existing) (found_verifier_s3_logs incoming),
               found_all_tests_passed =
                 unanimity (found_all_tests_passed existing) (found_all_tests_passed incoming),
               found_egress_failures =
                 sticky_true (found_egress_failures existing) (found_egress_failures incoming),
               log_download_url =
                 (case log_download_url recent of Some u \<Rightarrow> Some u
                  | None \<Rightarrow> log_download_url older)\<rparr>)"

text \<open>
  The observations of one cluster folded as the script does (lines 61--65): the first
  one is stored as it is, each later one is merged into the stored record.
\<close>

fun merge_all ::
  "ClusterVerifierRecord \<Rightarrow> ClusterVerifierRecord list \<Rightarrow> error + ClusterVerifierRecord" where
  "merge_all stored [] = Inr stored"
| "merge_all stored (x # xs) = and_then (merge stored x) (\<lambda>m. merge_all m xs)"

subsection \<open>Outcome\<close>

text \<open>
  Modelled from the spec: the enumeration \<open>Outcome\<close>, which is not among the sources.
  The script names four of its members (lines 88--91); the spec gives it a fifth,
  UNKNOWN, written \<open>OUTCOME_UNKNOWN\<close> here, since \<open>OCMState\<close> has a member
  \<open>UNKNOWN\<close> already.
\<close>

datatype Outcome =
  TRUE_POSITIVE | TRUE_NEGATIVE | FALSE_POSITIVE | FALSE_NEGATIVE | OUTCOME_UNKNOWN

subsection \<open>The hosted-control-plane lookup\<close>


section \<open>The script (analyze\_csv.py)\<close>








section \<open>Sample inputs\<close>

text \<open>
  The inputs of the examples below. \<open>sample_library\<close> gives the values of
  \<open>datetime.fromisoformat\<close> and \<open>json.loads\<close> at the strings the examples use (the
  wall clock of 2023-06-01T12:00:00 is 63821217600000000 microseconds after
  0001-01-01T00:00:00); at every other string it answers \<open>None\<close>, and no example
  depends on that. No sample row carries a log URL.
\<close>

definition sample_library :: "library" where
  \<open>sample_library =
     \<lparr>fromisoformat = (\<lambda>s.
        if s = ''2023-06-01T12:00:00+00:00''
        then Some \<lparr>wall = 63821217600000000, utcoffset = Some 0\<rparr>
        else if s = ''2023-06-01T12:00:00''
        then Some \<lparr>wall = 63821217600000000, utcoffset = None\<rparr>
        else if s = ''2023-06-02T12:00:00+00:00''
        then Some \<lparr>wall = 63821304000000000, utcoffset = Some 0\<rparr>
        else None),
      json_loads = (\<lambda>s.
        if s = ''["passed"]'' then Some (JArr [JStr ''passed''])
        else if s = ''["PASSED"]'' then Some (JArr [JStr ''PASSED''])
        else None),
      is_valid_url = (\<lambda>v. False)\<rparr>\<close>

definition sample_row :: "row" where
  \<open>sample_row = map_of
     [(''timestamp'', Some ''2023-06-01T12:00:00Z''),
      (''cid'', Some '' abc123 ''),
      (''cname'', Some ''prod''),
      (''ocm_state'', Some ''ready''),
      (''ocm_inflight_states'', Some ''["passed"]''),
      (''found_verifier_s3_logs'', Some ''True''),
      (''found_all_tests_passed'', Some ''false''),
      (''found_egress_failures'', Some ''''),
      (''log_download_url'', Some '''')]\<close>

definition sample_record :: "ClusterVerifierRecord" where
  "sample_record =
     \<lparr>timestamp = \<lparr>wall = 63821217600000000, utcoffset = Some 0\<rparr>,
      cid = ''abc123'', cname = Some ''prod'', ocm_state = Some READY,
      ocm_inflight_states = Some [IF_PASSED], found_verifier_s3_logs = Some True,
      found_all_tests_passed = Some False, found_egress_failures = None,
      log_download_url = None\<rparr>"

text \<open>
  A later observation of the sample cluster, the record that merging it into
  \<open>sample_record\<close> gives, a \<open>get_outcome\<close> for the examples (a problem is detected
  when not all tests passed; \<open>None\<close> when one of the two fields is unknown), the
  bounds of the window when \<open>--since\<close> and \<open>--until\<close> are not given, and two rows
  of two clusters.
\<close>

definition sample_later :: "ClusterVerifierRecord" where
  "sample_later =
     \<lparr>timestamp = \<lparr>wall = 63821304000000000, utcoffset = Some 0\<rparr>,
      cid = ''abc123'', cname = Some ''prod-2'', ocm_state = Some ERROR,
      ocm_inflight_states = None, found_verifier_s3_logs = Some True,
      found_all_tests_passed = Some True, found_egress_failures = Some True,
      log_download_url = None\<rparr>"

definition sample_merged :: "ClusterVerifierRecord" where
  "sample_merged =
     \<lparr>timestamp = \<lparr>wall = 63821304000000000, utcoffset = Some 0\<rparr>,
      cid = ''abc123'', cname = Some ''prod'', ocm_state = Some ERROR,
      ocm_inflight_states = None, found_verifier_s3_logs = Some True,
      found_all_tests_passed = Some False, found_egress_failures = Some True,
      log_download_url = None\<rparr>"






section \<open>Results: statistical measures\<close>

text \<open>
  C1, as stated: the statistics stage never raises a division-by-zero error, and with
  TP = 0 and FP = 0 the false discovery rate is reported as undefined. On the code the
  very first division, \<open>fp / (fp + tp)\<close>, raises ZeroDivisionError at TP = 0, FP = 0
  (here with TN = 5, FN = 0), and no measure is reported at all.
\<close>

theorem statistics_zero_division_counterexample:
  "statistics 0 5 0 0 = Inl ZeroDivisionError"
  by (simp add: statistics_def truediv_def)

text \<open>
  C1, amended: the script has no notion of an undefined measure. It computes all seven
  measures as the exact quotients when the three sums FP + TP, FP + TN and TP + FN are
  all non-zero (the other denominators are then non-zero as well), and raises
  ZeroDivisionError in every other case.
\<close>

theorem statistics_total_or_zero_division:
  "statistics tp tn fn fp =
     (if fp + tp = 0 \<or> fp + tn = 0 \<or> tp + fn = 0 then Inl ZeroDivisionError
      else Inr \<lparr>fdr = Fract (int fp) (int (fp + tp)),
                fpr = Fract (int fp) (int (fp + tn)),
                f1 = Fract (int (2 * tp)) (int (2 * tp + fp + fn)),
                acc = Fract (int (tp + tn)) (int (tp + tn + fp + fn)),
                precision = Fract (int tp) (int (tp + fp)),
                recall = Fract (int tp) (int (tp + fn)),
                specificity = Fract (int tn) (int (tn + fp))\<rparr>)"
  by (auto simp add: statistics_def truediv_def)

section \<open>Lemmas about the string helpers and from\_dict\<close>

lemma and_then_simps [simp]: "and_then (Inl e) f = Inl e" "and_then (Inr x) f = f x"
  by (simp_all add: and_then_def)

lemma and_then_Inr_iff: "(and_then m f = Inr y) = (\<exists>x. m = Inr x \<and> f x = Inr y)"
  by (cases m) simp_all

lemma not_Inr_Inl: "(\<forall>r. x \<noteq> Inr r) = (\<exists>e. x = Inl e)"
  by (cases x) auto

lemma dropWhile_hd: "xs = [] \<or> \<not> P (hd xs) \<Longrightarrow> dropWhile P xs = xs"
  by (cases xs) auto

lemma strip_fix:
  "rev (dropWhile P (rev (dropWhile P (rev (dropWhile P (rev (dropWhile P s)))))))
     = rev (dropWhile P (rev (dropWhile P s)))"
proof -
  define t where "t = dropWhile P s"
  define u where "u = dropWhile P (rev t)"
  have ht: "t = [] \<or> \<not> P (hd t)"
    unfolding t_def using hd_dropWhile [of P s] by blast
  have "rev u = [] \<or> \<not> P (hd (rev u))"
  proof (cases "u = []")
    case True
    then show ?thesis by simp
  next
    case False
    have tn: "t \<noteq> []"
    proof
      assume "t = []"
      then have "u = []" by (simp add: u_def)
      with False show False by simp
    qed
    then have "hd t \<in> set (rev t)" and "\<not> P (hd t)" using ht by simp_all
    then have "last u = last (rev t)"
      unfolding u_def by (rule dropWhile_last)
    then have "hd (rev u) = hd t"
      using False tn by (simp add: hd_rev last_rev)
    then show ?thesis using ht tn by simp
  qed
  then have "dropWhile P (rev u) = rev u" by (rule dropWhile_hd)
  moreover have "dropWhile P u = u" by (simp add: u_def)
  ultimately show ?thesis by (simp add: u_def [symmetric] t_def [symmetric])
qed

lemma strip_idem: "strip (strip s) = strip s"
  by (simp add: strip_def strip_fix)

lemma is_nully_strip [simp]: "is_nully_str (Some (strip s)) = (strip s = [])"
  by (simp add: is_nully_str_def strip_idem)

lemma lower_Nil [simp]: "(lower s = []) = (s = [])" "lower [] = []"
  by (simp_all add: lower_def)

lemma getitem_Inr [simp]: "(getitem d k = Inr v) = (d k = Some v)"
  by (simp add: getitem_def split: option.splits)

text \<open>
  What a successful run of each part of \<open>from_dict\<close> says about the row.
\<close>

lemma mandatory_fields_Inr:
  "(mandatory_fields lib d = Inr (ts, c)) =
     (\<exists>t s. d ''timestamp'' = Some (Some t) \<and> fromisoformat lib (replace_Z t) = Some ts \<and>
            d ''cid'' = Some (Some s) \<and> c = strip s \<and> strip s \<noteq> [])"
  unfolding mandatory_fields_def and_then_def getitem_def str_method_def
  by (auto split: option.splits sum.splits)

lemma optional_fields_Inr:
  "(optional_fields d = Inr x) = (try_body d = Inr x)"
  by (auto simp add: optional_fields_def split: sum.splits error.splits)

lemma try_body_Inr:
  "(try_body d = Inr (name, logs, passed, failures, st, ifs)) =
     (\<exists>vn v1 v2 v3 s4 s5.
        d ''cname'' = Some vn \<and> name = (if is_nully_str vn then None else map_option strip vn) \<and>
        d ''found_verifier_s3_logs'' = Some v1 \<and> csv_bool_to_bool v1 = Inr logs \<and>
        d ''found_all_tests_passed'' = Some v2 \<and> csv_bool_to_bool v2 = Inr passed \<and>
        d ''found_egress_failures'' = Some v3 \<and> csv_bool_to_bool v3 = Inr failures \<and>
        d ''ocm_state'' = Some (Some s4) \<and> st = strip (lower s4) \<and>
        d ''ocm_inflight_states'' = Some (Some s5) \<and> ifs = strip s5)"
  unfolding try_body_def and_then_def getitem_def str_method_def
  by (auto simp add: is_nully_str_def split: option.splits sum.splits)

lemma from_dict_Inr:
  "(from_dict lib d = Inr r) =
     (\<exists>ts c name logs passed failures st ifs state inflight url.
        mandatory_fields lib d = Inr (ts, c) \<and>
        try_body d = Inr (name, logs, passed, failures, st, ifs) \<and>
        parse_ocm_state st = Inr state \<and>
        parse_ocm_inflight_states lib d ifs = Inr inflight \<and>
        d ''log_download_url'' = Some url \<and>
        r = \<lparr>timestamp = ts, cid = c, cname = name, ocm_state = state,
            ocm_inflight_states = inflight, found_verifier_s3_logs = logs,
            found_all_tests_passed = passed, found_egress_failures = failures,
            log_download_url = (if is_valid_url lib url then url else None)\<rparr>)"
  by (auto simp add: from_dict_def and_then_Inr_iff optional_fields_Inr)

lemma from_dict_ocm_state:
  assumes "from_dict lib d = Inr r"
  shows "\<exists>s. d ''ocm_state'' = Some (Some s) \<and>
             parse_ocm_state (strip (lower s)) = Inr (ocm_state r)"
  using assms by (auto simp add: from_dict_Inr try_body_Inr)

lemma from_dict_ocm_inflight_states:
  assumes "from_dict lib d = Inr r"
  shows "\<exists>s. d ''ocm_inflight_states'' = Some (Some s) \<and>
             parse_ocm_inflight_states lib d (strip s) = Inr (ocm_inflight_states r)"
  using assms by (auto simp add: from_dict_Inr try_body_Inr)

lemma OCMState_of_Inr: "(OCMState_of s = Inr st) = (OCMState_value st = s)"
  by (cases st) (auto simp add: OCMState_of_def)

lemma parse_ocm_state_Inr:
  "(parse_ocm_state (strip t) = Inr state) =
     (if strip t = [] then state = None
      else \<exists>st. state = Some st \<and> OCMState_value st = strip t)"
  by (auto simp add: parse_ocm_state_def and_then_Inr_iff OCMState_of_Inr)

lemma InFlightState_of_Inr: "(InFlightState_of x = Inr st) = (x = JStr (InFlightState_value st))"
  by (cases st) (auto simp add: InFlightState_of_def)

lemma InFlightState_list_Inr:
  "(InFlightState_list xs = Inr sts) = (xs = map (\<lambda>st. JStr (InFlightState_value st)) sts)"
  by (induction xs arbitrary: sts) (auto simp add: and_then_Inr_iff InFlightState_of_Inr)

lemma parse_ocm_inflight_states_Inr:
  "d ''ocm_inflight_states'' = Some (Some s) \<Longrightarrow>
   (parse_ocm_inflight_states lib d (strip s) = Inr inflight) =
     (if strip s = [] then inflight = None
      else \<exists>j sts. json_loads lib s = Some j \<and>
             iterate j = Inr (map (\<lambda>st. JStr (InFlightState_value st)) sts) \<and>
             inflight = Some sts)"
  by (auto simp add: parse_ocm_inflight_states_def and_then_Inr_iff InFlightState_list_Inr
      split: option.splits)

lemma lower_InFlightState_value: "lower (InFlightState_value st) = InFlightState_value st"
  by (cases st) (simp_all, code_simp+)

lemma InFlightState_value_inj: "InFlightState_value a = InFlightState_value b \<Longrightarrow> a = b"
  by (cases a; cases b) simp_all

lemma try_body_update:
  assumes "try_body d = Inr (n, l, p, f, st0, ifs)"
  shows "try_body (d(''ocm_state'' \<mapsto> Some s)) = Inr (n, l, p, f, strip (lower s), ifs)"
  using assms unfolding try_body_def and_then_def getitem_def str_method_def
  by (auto split: option.splits sum.splits if_splits)

text \<open>
  A string is blank when all its characters are whitespace, so no spelling of "true"
  or "false" is blank.
\<close>

lemma strip_Nil_iff: "(strip s = []) = (\<forall>c \<in> set s. isspace c)"
proof -
  have "(strip s = []) = (\<forall>c \<in> set (dropWhile isspace s). isspace c)"
    by (simp add: strip_def dropWhile_eq_Nil_conv)
  also have "\<dots> = (dropWhile isspace s = [])"
  proof
    assume a: "\<forall>c \<in> set (dropWhile isspace s). isspace c"
    show "dropWhile isspace s = []"
    proof (rule ccontr)
      assume n: "dropWhile isspace s \<noteq> []"
      then have "\<not> isspace (hd (dropWhile isspace s))" by (rule hd_dropWhile)
      moreover have "hd (dropWhile isspace s) \<in> set (dropWhile isspace s)"
        using n by (rule hd_in_set)
      ultimately show False using a by blast
    qed
  next
    assume e: "dropWhile isspace s = []"
    show "\<forall>c \<in> set (dropWhile isspace s). isspace c" unfolding e by simp
  qed
  also have "\<dots> = (\<forall>c \<in> set s. isspace c)"
    by (simp add: dropWhile_eq_Nil_conv)
  finally show ?thesis .
qed

lemma lower_char_space: "isspace c \<Longrightarrow> lower_char c = c"
  by (auto simp add: isspace_def lower_char_def Let_def)

lemma lower_not_blank:
  assumes "lower s = x # xs" and "\<not> isspace x"
  shows "strip s \<noteq> []"
proof
  assume "strip s = []"
  then have a: "\<forall>c \<in> set s. isspace c" by (simp add: strip_Nil_iff)
  from assms(1) obtain c cs where s: "s = c # cs" and x: "x = lower_char c"
    by (cases s) (auto simp add: lower_def)
  from a s have "isspace c" by simp
  then have "lower_char c = c" by (rule lower_char_space)
  with x \<open>isspace c\<close> assms(2) show False by simp
qed

lemma true_false_not_blank:
  "lower s = ''true'' \<Longrightarrow> strip s \<noteq> []"
  "lower s = ''false'' \<Longrightarrow> strip s \<noteq> []"
proof -
  have t: "\<not> isspace CHR ''t''" and f: "\<not> isspace CHR ''f''" by code_simp+
  show "lower s = ''true'' \<Longrightarrow> strip s \<noteq> []" using lower_not_blank [OF _ t] by simp
  show "lower s = ''false'' \<Longrightarrow> strip s \<noteq> []" using lower_not_blank [OF _ f] by simp
qed

lemma csv_bool_to_bool_cases:
  "csv_bool_to_bool None = Inr None"
  "strip s = [] \<Longrightarrow> csv_bool_to_bool (Some s) = Inr None"
  "lower s = ''true'' \<Longrightarrow> csv_bool_to_bool (Some s) = Inr (Some True)"
  "lower s = ''false'' \<Longrightarrow> csv_bool_to_bool (Some s) = Inr (Some False)"
  "strip s \<noteq> [] \<Longrightarrow> lower s \<noteq> ''true'' \<Longrightarrow> lower s \<noteq> ''false''
     \<Longrightarrow> csv_bool_to_bool (Some s) = Inl ValueError"
  using true_false_not_blank [of s]
  by (auto simp add: csv_bool_to_bool_def is_nully_str_def)

lemma csv_bool_to_bool_Inl: "csv_bool_to_bool v = Inl e \<Longrightarrow> e = ValueError"
  by (auto simp add: csv_bool_to_bool_def split: option.splits if_splits)

text \<open>
  The rows \<open>from_dict\<close> accepts, and the effect of replacing one tri-state column
  in an accepted row.
\<close>

lemma from_dict_accepts:
  assumes "in_dict ''timestamp'' = Some (Some t)" and "fromisoformat lib (replace_Z t) = Some ts"
    and "in_dict ''cid'' = Some (Some c)" and "strip c \<noteq> []"
    and "in_dict ''cname'' = Some vn"
    and "in_dict ''found_verifier_s3_logs'' = Some v1" and "csv_bool_to_bool v1 = Inr b1"
    and "in_dict ''found_all_tests_passed'' = Some v2" and "csv_bool_to_bool v2 = Inr b2"
    and "in_dict ''found_egress_failures'' = Some v3" and "csv_bool_to_bool v3 = Inr b3"
    and "in_dict ''ocm_state'' = Some (Some s4)"
    and "parse_ocm_state (strip (lower s4)) = Inr state"
    and "in_dict ''ocm_inflight_states'' = Some (Some s5)"
    and "parse_ocm_inflight_states lib in_dict (strip s5) = Inr inflight"
    and "in_dict ''log_download_url'' = Some url"
  shows "from_dict lib in_dict =
      Inr \<lparr>timestamp = ts, cid = strip c,
           cname = (if is_nully_str vn then None else map_option strip vn),
           ocm_state = state, ocm_inflight_states = inflight,
           found_verifier_s3_logs = b1, found_all_tests_passed = b2,
           found_egress_failures = b3,
           log_download_url = (if is_valid_url lib url then url else None)\<rparr>"
proof -
  have m: "mandatory_fields lib in_dict = Inr (ts, strip c)"
    unfolding mandatory_fields_Inr using assms(1-4) by blast
  have b: "try_body in_dict =
      Inr (if is_nully_str vn then None else map_option strip vn, b1, b2, b3,
           strip (lower s4), strip s5)"
    unfolding try_body_Inr using assms by blast
  then have o: "optional_fields in_dict =
      Inr (if is_nully_str vn then None else map_option strip vn, b1, b2, b3,
           strip (lower s4), strip s5)"
    by (simp add: optional_fields_Inr)
  show ?thesis
    unfolding from_dict_def by (simp add: m o assms(13) assms(15) assms(16) getitem_def)
qed

lemma try_body_update_logs:
  assumes "try_body d = Inr (n, l, p, f, st0, ifs)"
  shows "try_body (d(''found_verifier_s3_logs'' \<mapsto> v)) =
     and_then (csv_bool_to_bool v) (\<lambda>b. Inr (n, b, p, f, st0, ifs))"
  using assms unfolding try_body_def and_then_def getitem_def str_method_def
  by (auto split: option.splits sum.splits if_splits)

lemma try_body_update_passed:
  assumes "try_body d = Inr (n, l, p, f, st0, ifs)"
  shows "try_body (d(''found_all_tests_passed'' \<mapsto> v)) =
     and_then (csv_bool_to_bool v) (\<lambda>b. Inr (n, l, b, f, st0, ifs))"
  using assms unfolding try_body_def and_then_def getitem_def str_method_def
  by (auto split: option.splits sum.splits if_splits)

lemma try_body_update_failures:
  assumes "try_body d = Inr (n, l, p, f, st0, ifs)"
  shows "try_body (d(''found_egress_failures'' \<mapsto> v)) =
     and_then (csv_bool_to_bool v) (\<lambda>b. Inr (n, l, p, b, st0, ifs))"
  using assms unfolding try_body_def and_then_def getitem_def str_method_def
  by (auto split: option.splits sum.splits if_splits)

lemma from_dict_update_logs:
  assumes "from_dict lib d = Inr r"
  shows "from_dict lib (d(''found_verifier_s3_logs'' \<mapsto> v)) =
     and_then (csv_bool_to_bool v) (\<lambda>b. Inr (r\<lparr>found_verifier_s3_logs := b\<rparr>))"
proof -
  let ?d = "d(''found_verifier_s3_logs'' \<mapsto> v)"
  have m: "mandatory_fields lib ?d = mandatory_fields lib d"
    by (simp add: mandatory_fields_def getitem_def)
  have p: "parse_ocm_inflight_states lib ?d = parse_ocm_inflight_states lib d"
    by (simp add: parse_ocm_inflight_states_def getitem_def fun_eq_iff)
  have u: "getitem ?d ''log_download_url'' = getitem d ''log_download_url''"
    by (simp add: getitem_def)
  from assms obtain ts c name logs passed failures st0 ifs state inflight url where
    f1: "mandatory_fields lib d = Inr (ts, c)" and
    f2: "try_body d = Inr (name, logs, passed, failures, st0, ifs)" and
    f3: "parse_ocm_state st0 = Inr state" and
    f4: "parse_ocm_inflight_states lib d ifs = Inr inflight" and
    f5: "d ''log_download_url'' = Some url" and
    f6: "r = \<lparr>timestamp = ts, cid = c, cname = name, ocm_state = state,
            ocm_inflight_states = inflight, found_verifier_s3_logs = logs,
            found_all_tests_passed = passed, found_egress_failures = failures,
            log_download_url = (if is_valid_url lib url then url else None)\<rparr>"
    unfolding from_dict_Inr by blast
  show ?thesis
  proof (cases "csv_bool_to_bool v")
    case (Inl e)
    then have "optional_fields ?d = Inl ValueError"
      using try_body_update_logs [OF f2, of v] csv_bool_to_bool_Inl [OF Inl]
      by (simp add: optional_fields_def)
    then show ?thesis
      unfolding from_dict_def m using csv_bool_to_bool_Inl [OF Inl] by (simp add: f1 Inl)
  next
    case (Inr b)
    then have "optional_fields ?d = Inr (name, b, passed, failures, st0, ifs)"
      using try_body_update_logs [OF f2, of v] by (simp add: optional_fields_def)
    then show ?thesis
      unfolding from_dict_def m p u by (simp add: f1 f3 f4 f5 f6 Inr getitem_def)
  qed
qed

lemma from_dict_update_passed:
  assumes "from_dict lib d = Inr r"
  shows "from_dict lib (d(''found_all_tests_passed'' \<mapsto> v)) =
     and_then (csv_bool_to_bool v) (\<lambda>b. Inr (r\<lparr>found_all_tests_passed := b\<rparr>))"
proof -
  let ?d = "d(''found_all_tests_passed'' \<mapsto> v)"
  have m: "mandatory_fields lib ?d = mandatory_fields lib d"
    by (simp add: mandatory_fields_def getitem_def)
  have p: "parse_ocm_inflight_states lib ?d = parse_ocm_inflight_states lib d"
    by (simp add: parse_ocm_inflight_states_def getitem_def fun_eq_iff)
  have u: "getitem ?d ''log_download_url'' = getitem d ''log_download_url''"
    by (simp add: getitem_def)
  from assms obtain ts c name logs passed failures st0 ifs state inflight url where
    f1: "mandatory_fields lib d = Inr (ts, c)" and
    f2: "try_body d = Inr (name, logs, passed, failures, st0, ifs)" and
    f3: "parse_ocm_state st0 = Inr state" and
    f4: "parse_ocm_inflight_states lib d ifs = Inr inflight" and
    f5: "d ''log_download_url'' = Some url" and
    f6: "r = \<lparr>timestamp = ts, cid = c, cname = name, ocm_state = state,
            ocm_inflight_states = inflight, found_verifier_s3_logs = logs,
            found_all_tests_passed = passed, found_egress_failures = failures,
            log_download_url = (if is_valid_url lib url then url else None)\<rparr>"
    unfolding from_dict_Inr by blast
  show ?thesis
  proof (cases "csv_bool_to_bool v")
    case (Inl e)
    then have "optional_fields ?d = Inl ValueError"
      using try_body_update_passed [OF f2, of v] csv_bool_to_bool_Inl [OF Inl]
      by (simp add: optional_fields_def)
    then show ?thesis
      unfolding from_dict_def m using csv_bool_to_bool_Inl [OF Inl] by (simp add: f1 Inl)
  next
    case (Inr b)
    then have "optional_fields ?d = Inr (name, logs, b, failures, st0, ifs)"
      using try_body_update_passed [OF f2, of v] by (simp add: optional_fields_def)
    then show ?thesis
      unfolding from_dict_def m p u by (simp add: f1 f3 f4 f5 f6 Inr getitem_def)
  qed
qed

lemma from_dict_update_failures:
  assumes "from_dict lib d = Inr r"
  shows "from_dict lib (d(''found_egress_failures'' \<mapsto> v)) =
     and_then (csv_bool_to_bool v) (\<lambda>b. Inr (r\<lparr>found_egress_failures := b\<rparr>))"
proof -
  let ?d = "d(''found_egress_failures'' \<mapsto> v)"
  have m: "mandatory_fields lib ?d = mandatory_fields lib d"
    by (simp add: mandatory_fields_def getitem_def)
  have p: "parse_ocm_inflight_states lib ?d = parse_ocm_inflight_states lib d"
    by (simp add: parse_ocm_inflight_states_def getitem_def fun_eq_iff)
  have u: "getitem ?d ''log_download_url'' = getitem d ''log_download_url''"
    by (simp add: getitem_def)
  from assms obtain ts c name logs passed failures st0 ifs state inflight url where
    f1: "mandatory_fields lib d = Inr (ts, c)" and
    f2: "try_body d = Inr (name, logs, passed, failures, st0, ifs)" and
    f3: "parse_ocm_state st0 = Inr state" and
    f4: "parse_ocm_inflight_states lib d ifs = Inr inflight" and
    f5: "d ''log_download_url'' = Some url" and
    f6: "r = \<lparr>timestamp = ts, cid = c, cname = name, ocm_state = state,
            ocm_inflight_states = inflight, found_verifier_s3_logs = logs,
            found_all_tests_passed = passed, found_egress_failures = failures,
            log_download_url = (if is_valid_url lib url then url else None)\<rparr>"
    unfolding from_dict_Inr by blast
  show ?thesis
  proof (cases "csv_bool_to_bool v")
    case (Inl e)
    then have "optional_fields ?d = Inl ValueError"
      using try_body_update_failures [OF f2, of v] csv_bool_to_bool_Inl [OF Inl]
      by (simp add: optional_fields_def)
    then show ?thesis
      unfolding from_dict_def m using csv_bool_to_bool_Inl [OF Inl] by (simp add: f1 Inl)
  next
    case (Inr b)
    then have "optional_fields ?d = Inr (name, logs, passed, b, st0, ifs)"
      using try_body_update_failures [OF f2, of v] by (simp add: optional_fields_def)
    then show ?thesis
      unfolding from_dict_def m p u by (simp add: f1 f3 f4 f5 f6 Inr getitem_def)
  qed
qed

section \<open>Results: parsing a row\<close>

text \<open>
  C6: \<open>from_dict\<close> fails when the column \<open>cid\<close> is missing from the row, holds no
  string, or is blank once trimmed; and the cluster id of every record it returns is the
  trimmed value of the column, which is not empty.
\<close>

theorem from_dict_cid_required:
  "((in_dict ''cid'' = None \<or> in_dict ''cid'' = Some None \<or>
      (\<exists>s. in_dict ''cid'' = Some (Some s) \<and> strip s = []))
     \<longrightarrow> (\<exists>e. from_dict lib in_dict = Inl e)) \<and>
   (from_dict lib in_dict = Inr r
     \<longrightarrow> (\<exists>s. in_dict ''cid'' = Some (Some s) \<and> cid r = strip s \<and> cid r \<noteq> []))"
proof (intro conjI impI)
  assume a: "in_dict ''cid'' = None \<or> in_dict ''cid'' = Some None \<or>
      (\<exists>s. in_dict ''cid'' = Some (Some s) \<and> strip s = [])"
  have "\<forall>r. from_dict lib in_dict \<noteq> Inr r"
    using a by (auto simp add: from_dict_Inr mandatory_fields_Inr)
  then show "\<exists>e. from_dict lib in_dict = Inl e" by (simp add: not_Inr_Inl)
next
  assume "from_dict lib in_dict = Inr r"
  then show "\<exists>s. in_dict ''cid'' = Some (Some s) \<and> cid r = strip s \<and> cid r \<noteq> []"
    by (auto simp add: from_dict_Inr mandatory_fields_Inr)
qed

text \<open>
  A blank cluster id is refused, and the sample row parses to a record whose cluster id
  is the trimmed column.
\<close>

theorem from_dict_cid_required_witness:
  "strip ''  '' = [] \<and>
   (\<exists>e. from_dict sample_library (sample_row(''cid'' \<mapsto> Some ''  '')) = Inl e) \<and>
   from_dict sample_library sample_row = Inr sample_record \<and>
   (\<exists>s. sample_row ''cid'' = Some (Some s) \<and> cid sample_record = strip s \<and>
        cid sample_record \<noteq> [])"
proof -
  have h1: "strip ''  '' = []" by code_simp
  have h2: "from_dict sample_library sample_row = Inr sample_record" by code_simp
  have u: "(sample_row(''cid'' \<mapsto> Some ''  '')) ''cid'' = Some (Some ''  '')" by simp
  show ?thesis
    using h1 h2 u
      from_dict_cid_required [of "sample_row(''cid'' \<mapsto> Some ''  '')" sample_library]
      from_dict_cid_required [of sample_row sample_library sample_record]
    by blast
qed

text \<open>
  C7: \<open>csv_bool_to_bool\<close> maps an absent or blank value to unknown, a
  case-insensitive "true" or "false" to the boolean, and fails on any other token.
  \<open>from_dict\<close> accepts every row whose three tri-state columns it maps and whose
  other columns are well-formed, with the mapped values in the three fields; in a row
  it accepts, replacing one of the three columns by a value gives the same record with
  the mapped value in that field, or ValueError when the value is another token; the
  three fields of any record it returns are the mapped columns; and it fails when one
  of the three columns holds another token.
\<close>

theorem tri_state_columns:
  "csv_bool_to_bool None = Inr None \<and>
   (strip s = [] \<longrightarrow> csv_bool_to_bool (Some s) = Inr None) \<and>
   (lower s = ''true'' \<longrightarrow> csv_bool_to_bool (Some s) = Inr (Some True)) \<and>
   (lower s = ''false'' \<longrightarrow> csv_bool_to_bool (Some s) = Inr (Some False)) \<and>
   (strip s \<noteq> [] \<and> lower s \<noteq> ''true'' \<and> lower s \<noteq> ''false''
      \<longrightarrow> csv_bool_to_bool (Some s) = Inl ValueError) \<and>
   (in_dict ''timestamp'' = Some (Some t) \<and> fromisoformat lib (replace_Z t) = Some ts \<and>
    in_dict ''cid'' = Some (Some c) \<and> strip c \<noteq> [] \<and>
    in_dict ''cname'' = Some vn \<and>
    in_dict ''found_verifier_s3_logs'' = Some v1 \<and> csv_bool_to_bool v1 = Inr b1 \<and>
    in_dict ''found_all_tests_passed'' = Some v2 \<and> csv_bool_to_bool v2 = Inr b2 \<and>
    in_dict ''found_egress_failures'' = Some v3 \<and> csv_bool_to_bool v3 = Inr b3 \<and>
    in_dict ''ocm_state'' = Some (Some s4) \<and>
    parse_ocm_state (strip (lower s4)) = Inr state \<and>
    in_dict ''ocm_inflight_states'' = Some (Some s5) \<and>
    parse_ocm_inflight_states lib in_dict (strip s5) = Inr inflight \<and>
    in_dict ''log_download_url'' = Some url
      \<longrightarrow> from_dict lib in_dict =
            Inr \<lparr>timestamp = ts, cid = strip c,
                 cname = (if is_nully_str vn then None else map_option strip vn),
                 ocm_state = state, ocm_inflight_states = inflight,
                 found_verifier_s3_logs = b1, found_all_tests_passed = b2,
                 found_egress_failures = b3,
                 log_download_url = (if is_valid_url lib url then url else None)\<rparr>) \<and>
   (from_dict lib in_dict = Inr r \<longrightarrow>
      from_dict lib (in_dict(''found_verifier_s3_logs'' \<mapsto> v)) =
        and_then (csv_bool_to_bool v) (\<lambda>b. Inr (r\<lparr>found_verifier_s3_logs := b\<rparr>)) \<and>
      from_dict lib (in_dict(''found_all_tests_passed'' \<mapsto> v)) =
        and_then (csv_bool_to_bool v) (\<lambda>b. Inr (r\<lparr>found_all_tests_passed := b\<rparr>)) \<and>
      from_dict lib (in_dict(''found_egress_failures'' \<mapsto> v)) =
        and_then (csv_bool_to_bool v) (\<lambda>b. Inr (r\<lparr>found_egress_failures := b\<rparr>))) \<and>
   (from_dict lib in_dict = Inr r \<longrightarrow>
      (\<exists>w1 w2 w3.
         in_dict ''found_verifier_s3_logs'' = Some w1 \<and>
         csv_bool_to_bool w1 = Inr (found_verifier_s3_logs r) \<and>
         in_dict ''found_all_tests_passed'' = Some w2 \<and>
         csv_bool_to_bool w2 = Inr (found_all_tests_passed r) \<and>
         in_dict ''found_egress_failures'' = Some w3 \<and>
         csv_bool_to_bool w3 = Inr (found_egress_failures r))) \<and>
   ((in_dict ''found_verifier_s3_logs'' = Some v \<or> in_dict ''found_all_tests_passed'' = Some v \<or>
     in_dict ''found_egress_failures'' = Some v) \<and> csv_bool_to_bool v = Inl e
      \<longrightarrow> (\<exists>e'. from_dict lib in_dict = Inl e'))"
proof (intro conjI impI)
  assume a: "in_dict ''timestamp'' = Some (Some t) \<and> fromisoformat lib (replace_Z t) = Some ts \<and>
    in_dict ''cid'' = Some (Some c) \<and> strip c \<noteq> [] \<and>
    in_dict ''cname'' = Some vn \<and>
    in_dict ''found_verifier_s3_logs'' = Some v1 \<and> csv_bool_to_bool v1 = Inr b1 \<and>
    in_dict ''found_all_tests_passed'' = Some v2 \<and> csv_bool_to_bool v2 = Inr b2 \<and>
    in_dict ''found_egress_failures'' = Some v3 \<and> csv_bool_to_bool v3 = Inr b3 \<and>
    in_dict ''ocm_state'' = Some (Some s4) \<and>
    parse_ocm_state (strip (lower s4)) = Inr state \<and>
    in_dict ''ocm_inflight_states'' = Some (Some s5) \<and>
    parse_ocm_inflight_states lib in_dict (strip s5) = Inr inflight \<and>
    in_dict ''log_download_url'' = Some url"
  show "from_dict lib in_dict =
            Inr \<lparr>timestamp = ts, cid = strip c,
                 cname = (if is_nully_str vn then None else map_option strip vn),
                 ocm_state = state, ocm_inflight_states = inflight,
                 found_verifier_s3_logs = b1, found_all_tests_passed = b2,
                 found_egress_failures = b3,
                 log_download_url = (if is_valid_url lib url then url else None)\<rparr>"
    using a by (elim conjE) (rule from_dict_accepts; assumption)
next
  assume "from_dict lib in_dict = Inr r"
  then show "from_dict lib (in_dict(''found_verifier_s3_logs'' \<mapsto> v)) =
        and_then (csv_bool_to_bool v) (\<lambda>b. Inr (r\<lparr>found_verifier_s3_logs := b\<rparr>))"
    by (rule from_dict_update_logs)
next
  assume "from_dict lib in_dict = Inr r"
  then show "from_dict lib (in_dict(''found_all_tests_passed'' \<mapsto> v)) =
        and_then (csv_bool_to_bool v) (\<lambda>b. Inr (r\<lparr>found_all_tests_passed := b\<rparr>))"
    by (rule from_dict_update_passed)
next
  assume "from_dict lib in_dict = Inr r"
  then show "from_dict lib (in_dict(''found_egress_failures'' \<mapsto> v)) =
        and_then (csv_bool_to_bool v) (\<lambda>b. Inr (r\<lparr>found_egress_failures := b\<rparr>))"
    by (rule from_dict_update_failures)
next
  assume "from_dict lib in_dict = Inr r"
  then show "\<exists>w1 w2 w3.
         in_dict ''found_verifier_s3_logs'' = Some w1 \<and>
         csv_bool_to_bool w1 = Inr (found_verifier_s3_logs r) \<and>
         in_dict ''found_all_tests_passed'' = Some w2 \<and>
         csv_bool_to_bool w2 = Inr (found_all_tests_passed r) \<and>
         in_dict ''found_egress_failures'' = Some w3 \<and>
         csv_bool_to_bool w3 = Inr (found_egress_failures r)"
    by (auto simp add: from_dict_Inr try_body_Inr)
next
  assume a: "(in_dict ''found_verifier_s3_logs'' = Some v \<or> in_dict ''found_all_tests_passed'' = Some v \<or>
     in_dict ''found_egress_failures'' = Some v) \<and> csv_bool_to_bool v = Inl e"
  have "\<forall>r. from_dict lib in_dict \<noteq> Inr r"
    using a by (auto simp add: from_dict_Inr try_body_Inr)
  then show "\<exists>e'. from_dict lib in_dict = Inl e'" by (simp add: not_Inr_Inl)
qed (simp_all add: csv_bool_to_bool_cases)

text \<open>
  The sample row is accepted with true, false and unknown in the three fields; "TRUE",
  "False", a blank and an absent value are mapped in its place, and the token "yes" is
  refused.
\<close>

theorem tri_state_columns_witness:
  \<open>from_dict sample_library sample_row = Inr sample_record \<and>
   found_verifier_s3_logs sample_record = Some True \<and>
   found_all_tests_passed sample_record = Some False \<and>
   found_egress_failures sample_record = None \<and>
   lower ''TRUE'' = ''true'' \<and>
   from_dict sample_library (sample_row(''found_egress_failures'' \<mapsto> Some ''TRUE''))
     = Inr (sample_record\<lparr>found_egress_failures := Some True\<rparr>) \<and>
   lower ''False'' = ''false'' \<and>
   from_dict sample_library (sample_row(''found_verifier_s3_logs'' \<mapsto> Some ''False''))
     = Inr (sample_record\<lparr>found_verifier_s3_logs := Some False\<rparr>) \<and>
   strip ''  '' = [] \<and>
   from_dict sample_library (sample_row(''found_all_tests_passed'' \<mapsto> Some ''  ''))
     = Inr (sample_record\<lparr>found_all_tests_passed := None\<rparr>) \<and>
   from_dict sample_library (sample_row(''found_all_tests_passed'' \<mapsto> None))
     = Inr (sample_record\<lparr>found_all_tests_passed := None\<rparr>) \<and>
   from_dict sample_library (sample_row(''found_egress_failures'' \<mapsto> Some ''yes''))
     = Inl ValueError\<close>
proof -
  have h0: \<open>sample_row ''timestamp'' = Some (Some ''2023-06-01T12:00:00Z'') \<and>
    fromisoformat sample_library (replace_Z ''2023-06-01T12:00:00Z'')
      = Some \<lparr>wall = 63821217600000000, utcoffset = Some 0\<rparr> \<and>
    sample_row ''cid'' = Some (Some '' abc123 '') \<and> strip '' abc123 '' \<noteq> [] \<and>
    sample_row ''cname'' = Some (Some ''prod'') \<and>
    sample_row ''found_verifier_s3_logs'' = Some (Some ''True'') \<and>
    sample_row ''found_all_tests_passed'' = Some (Some ''false'') \<and>
    sample_row ''found_egress_failures'' = Some (Some '''') \<and>
    sample_row ''ocm_state'' = Some (Some ''ready'') \<and>
    parse_ocm_state (strip (lower ''ready'')) = Inr (Some READY) \<and>
    sample_row ''ocm_inflight_states'' = Some (Some ''["passed"]'') \<and>
    parse_ocm_inflight_states sample_library sample_row (strip ''["passed"]'')
      = Inr (Some [IF_PASSED]) \<and>
    sample_row ''log_download_url'' = Some (Some '''')\<close>
    by code_simp
  have h1: "lower ''True'' = ''true'' \<and> lower ''false'' = ''false'' \<and> strip '''' = [] \<and>
    lower ''TRUE'' = ''true'' \<and> lower ''False'' = ''false'' \<and> strip ''  '' = [] \<and>
    strip ''yes'' \<noteq> [] \<and> lower ''yes'' \<noteq> ''true'' \<and> lower ''yes'' \<noteq> ''false''"
    by code_simp
  have v1: "csv_bool_to_bool (Some ''True'') = Inr (Some True)"
    using h1 tri_state_columns [where s = "''True''"] by blast
  have v2: "csv_bool_to_bool (Some ''false'') = Inr (Some False)"
    using h1 tri_state_columns [where s = "''false''"] by blast
  have v3: "csv_bool_to_bool (Some '''') = Inr None"
    using h1 tri_state_columns [where s = "''''"] by blast
  have v4: "csv_bool_to_bool (Some ''TRUE'') = Inr (Some True)"
    using h1 tri_state_columns [where s = "''TRUE''"] by blast
  have v5: "csv_bool_to_bool (Some ''False'') = Inr (Some False)"
    using h1 tri_state_columns [where s = "''False''"] by blast
  have v6: "csv_bool_to_bool (Some ''  '') = Inr None"
    using h1 tri_state_columns [where s = "''  ''"] by blast
  have v7: "csv_bool_to_bool None = Inr None"
    by (rule tri_state_columns [THEN conjunct1])
  have v8: "csv_bool_to_bool (Some ''yes'') = Inl ValueError"
    using h1 tri_state_columns [where s = "''yes''"] by blast
  have e: "\<lparr>timestamp = \<lparr>wall = 63821217600000000, utcoffset = Some 0\<rparr>,
             cid = strip '' abc123 '',
             cname = (if is_nully_str (Some ''prod'') then None
                      else map_option strip (Some ''prod'')),
             ocm_state = Some READY, ocm_inflight_states = Some [IF_PASSED],
             found_verifier_s3_logs = Some True, found_all_tests_passed = Some False,
             found_egress_failures = None,
             log_download_url = (if is_valid_url sample_library (Some '''') then Some ''''
                                 else None)\<rparr> = sample_record"
    by code_simp
  have c0: "from_dict sample_library sample_row = Inr sample_record"
    using h0 v1 v2 v3
      tri_state_columns [where in_dict = sample_row and lib = sample_library
        and t = "''2023-06-01T12:00:00Z''"
        and ts = "\<lparr>wall = 63821217600000000, utcoffset = Some 0\<rparr>"
        and c = "'' abc123 ''" and vn = "Some ''prod''"
        and ?v1.0 = "Some ''True''" and ?b1.0 = "Some True"
        and ?v2.0 = "Some ''false''" and ?b2.0 = "Some False"
        and ?v3.0 = "Some ''''" and ?b3.0 = None
        and ?s4.0 = "''ready''" and state = "Some READY"
        and ?s5.0 = \<open>''["passed"]''\<close> and inflight = "Some [IF_PASSED]"
        and url = "Some ''''"]
    unfolding e by blast
  note t = tri_state_columns [where in_dict = sample_row and lib = sample_library
        and r = sample_record]
  have c1: "from_dict sample_library (sample_row(''found_egress_failures'' \<mapsto> Some ''TRUE''))
     = Inr (sample_record\<lparr>found_egress_failures := Some True\<rparr>)"
    using c0 t [where v = "Some ''TRUE''"] by (simp add: v4 and_then_def)
  have c2: "from_dict sample_library (sample_row(''found_verifier_s3_logs'' \<mapsto> Some ''False''))
     = Inr (sample_record\<lparr>found_verifier_s3_logs := Some False\<rparr>)"
    using c0 t [where v = "Some ''False''"] by (simp add: v5 and_then_def)
  have c3: "from_dict sample_library (sample_row(''found_all_tests_passed'' \<mapsto> Some ''  ''))
     = Inr (sample_record\<lparr>found_all_tests_passed := None\<rparr>)"
    using c0 t [where v = "Some ''  ''"] by (simp add: v6 and_then_def)
  have c4: "from_dict sample_library (sample_row(''found_all_tests_passed'' \<mapsto> None))
     = Inr (sample_record\<lparr>found_all_tests_passed := None\<rparr>)"
    using c0 t [where v = None] by (simp add: v7 and_then_def)
  have c5: "from_dict sample_library (sample_row(''found_egress_failures'' \<mapsto> Some ''yes''))
     = Inl ValueError"
    using c0 t [where v = "Some ''yes''"] by (simp add: v8 and_then_def)
  have c6: "found_verifier_s3_logs sample_record = Some True \<and>
   found_all_tests_passed sample_record = Some False \<and> found_egress_failures sample_record = None"
    by (simp add: sample_record_def)
  show ?thesis using h1 c0 c1 c2 c3 c4 c5 c6 by simp
qed

text \<open>
  C8: a record that \<open>from_dict\<close> returns has a lifecycle state only when the
  lowercased, trimmed column is the value of a member of \<open>OCMState\<close>, and in-flight
  states only when every element of the decoded column is the value of a member of
  \<open>InFlightState\<close>; a blank column gives no value, and a non-blank column that is not
  recognised makes \<open>from_dict\<close> fail.
\<close>

theorem enumerated_fields_closed:
  "(from_dict lib in_dict = Inr r \<longrightarrow>
      (\<exists>s. in_dict ''ocm_state'' = Some (Some s) \<and>
           (if strip (lower s) = [] then ocm_state r = None
            else \<exists>st. ocm_state r = Some st \<and> OCMState_value st = strip (lower s)))) \<and>
   (in_dict ''ocm_state'' = Some (Some s) \<and> strip (lower s) \<noteq> [] \<and>
    (\<forall>st. OCMState_value st \<noteq> strip (lower s))
      \<longrightarrow> (\<exists>e. from_dict lib in_dict = Inl e)) \<and>
   (from_dict lib in_dict = Inr r \<longrightarrow>
      (\<exists>s. in_dict ''ocm_inflight_states'' = Some (Some s) \<and>
           (if strip s = [] then ocm_inflight_states r = None
            else \<exists>j sts. json_loads lib s = Some j \<and>
                   iterate j = Inr (map (\<lambda>st. JStr (InFlightState_value st)) sts) \<and>
                   ocm_inflight_states r = Some sts))) \<and>
   (in_dict ''ocm_inflight_states'' = Some (Some s) \<and> strip s \<noteq> [] \<and>
    json_loads lib s = Some j \<and> iterate j = Inr xs \<and> x \<in> set xs \<and>
    (\<forall>st. x \<noteq> JStr (InFlightState_value st))
      \<longrightarrow> (\<exists>e. from_dict lib in_dict = Inl e))"
proof (intro conjI impI)
  assume "from_dict lib in_dict = Inr r"
  then obtain s' where "in_dict ''ocm_state'' = Some (Some s')"
    and "parse_ocm_state (strip (lower s')) = Inr (ocm_state r)"
    using from_dict_ocm_state by blast
  then show "\<exists>s. in_dict ''ocm_state'' = Some (Some s) \<and>
           (if strip (lower s) = [] then ocm_state r = None
            else \<exists>st. ocm_state r = Some st \<and> OCMState_value st = strip (lower s))"
    by (intro exI [of _ s']) (simp add: parse_ocm_state_Inr)
next
  assume a: "in_dict ''ocm_state'' = Some (Some s) \<and> strip (lower s) \<noteq> [] \<and>
    (\<forall>st. OCMState_value st \<noteq> strip (lower s))"
  have "from_dict lib in_dict \<noteq> Inr r'" for r'
  proof
    assume "from_dict lib in_dict = Inr r'"
    then have "parse_ocm_state (strip (lower s)) = Inr (ocm_state r')"
      using from_dict_ocm_state [of lib in_dict r'] a by auto
    then show False using a by (simp add: parse_ocm_state_Inr)
  qed
  then show "\<exists>e. from_dict lib in_dict = Inl e" by (simp add: not_Inr_Inl [symmetric])
next
  assume "from_dict lib in_dict = Inr r"
  then obtain s' where s': "in_dict ''ocm_inflight_states'' = Some (Some s')"
    and "parse_ocm_inflight_states lib in_dict (strip s') = Inr (ocm_inflight_states r)"
    using from_dict_ocm_inflight_states by blast
  then show "\<exists>s. in_dict ''ocm_inflight_states'' = Some (Some s) \<and>
           (if strip s = [] then ocm_inflight_states r = None
            else \<exists>j sts. json_loads lib s = Some j \<and>
                   iterate j = Inr (map (\<lambda>st. JStr (InFlightState_value st)) sts) \<and>
                   ocm_inflight_states r = Some sts)"
    by (intro exI [of _ s']) (simp add: parse_ocm_inflight_states_Inr [where d = in_dict and s = s'] s')
next
  assume a: "in_dict ''ocm_inflight_states'' = Some (Some s) \<and> strip s \<noteq> [] \<and>
    json_loads lib s = Some j \<and> iterate j = Inr xs \<and> x \<in> set xs \<and>
    (\<forall>st. x \<noteq> JStr (InFlightState_value st))"
  then have s: "in_dict ''ocm_inflight_states'' = Some (Some s)" by simp
  have "from_dict lib in_dict \<noteq> Inr r'" for r'
  proof
    assume "from_dict lib in_dict = Inr r'"
    then have "parse_ocm_inflight_states lib in_dict (strip s) = Inr (ocm_inflight_states r')"
      using from_dict_ocm_inflight_states [of lib in_dict r'] a by auto
    then show False using a by (auto simp add: parse_ocm_inflight_states_Inr [where d = in_dict and s = s] s)
  qed
  then show "\<exists>e. from_dict lib in_dict = Inl e" by (simp add: not_Inr_Inl [symmetric])
qed

text \<open>
  The sample row is accepted with its members; the state "rdy" and the in-flight state
  "PASSED" are refused.
\<close>

theorem enumerated_fields_closed_witness:
  \<open>from_dict sample_library sample_row = Inr sample_record \<and>
   ocm_state sample_record = Some READY \<and> OCMState_value READY = strip (lower ''ready'') \<and>
   ocm_inflight_states sample_record = Some [IF_PASSED] \<and>
   (\<exists>e. from_dict sample_library (sample_row(''ocm_state'' \<mapsto> Some ''rdy'')) = Inl e) \<and>
   (\<exists>e. from_dict sample_library
          (sample_row(''ocm_inflight_states'' \<mapsto> Some ''["PASSED"]'')) = Inl e)\<close>
proof -
  let ?r1 = "sample_row(''ocm_state'' \<mapsto> Some ''rdy'')"
  let ?r2 = \<open>sample_row(''ocm_inflight_states'' \<mapsto> Some ''["PASSED"]'')\<close>
  have h1: "from_dict sample_library sample_row = Inr sample_record" by code_simp
  have h2: "?r1 ''ocm_state'' = Some (Some ''rdy'') \<and> strip (lower ''rdy'') \<noteq> []"
    by code_simp
  have h3: "\<forall>st. OCMState_value st \<noteq> strip (lower ''rdy'')"
  proof
    fix st
    have "strip (lower ''rdy'') = ''rdy''" by code_simp
    then show "OCMState_value st \<noteq> strip (lower ''rdy'')" by (cases st) simp_all
  qed
  have h4: \<open>?r2 ''ocm_inflight_states'' = Some (Some ''["PASSED"]'') \<and>
            strip ''["PASSED"]'' \<noteq> [] \<and>
            json_loads sample_library ''["PASSED"]'' = Some (JArr [JStr ''PASSED'']) \<and>
            iterate (JArr [JStr ''PASSED'']) = Inr [JStr ''PASSED''] \<and>
            JStr ''PASSED'' \<in> set [JStr ''PASSED'']\<close>
    by code_simp
  have h5: "\<forall>st. JStr ''PASSED'' \<noteq> JStr (InFlightState_value st)"
  proof
    fix st
    show "JStr ''PASSED'' \<noteq> JStr (InFlightState_value st)" by (cases st) simp_all
  qed
  have c1: "\<exists>e. from_dict sample_library ?r1 = Inl e"
    using h2 h3 enumerated_fields_closed [of sample_library ?r1 _ "''rdy''"] by blast
  have c2: "\<exists>e. from_dict sample_library ?r2 = Inl e"
    using h4 h5
      enumerated_fields_closed [of sample_library ?r2 _ \<open>''["PASSED"]''\<close>
        "JArr [JStr ''PASSED'']" "[JStr ''PASSED'']" "JStr ''PASSED''"]
    by blast
  have c3: "ocm_state sample_record = Some READY \<and>
            OCMState_value READY = strip (lower ''ready'') \<and>
            ocm_inflight_states sample_record = Some [IF_PASSED]"
    by code_simp
  show ?thesis using h1 c1 c2 c3 by simp
qed

text \<open>
  C10: in a row that \<open>from_dict\<close> accepts, the lifecycle state may be replaced by any
  string that is the value of a member once lowercased and trimmed, and the row is still
  accepted, with that member; whereas a row whose in-flight list holds a string that
  equals the value of a member only after lowercasing is refused.
\<close>

theorem state_normalisation_asymmetry:
  "(from_dict lib in_dict = Inr r \<and> strip (lower s) = OCMState_value st
      \<longrightarrow> from_dict lib (in_dict(''ocm_state'' \<mapsto> Some s)) = Inr (r\<lparr>ocm_state := Some st\<rparr>)) \<and>
   (in_dict ''ocm_inflight_states'' = Some (Some raw) \<and> strip raw \<noteq> [] \<and>
    json_loads lib raw = Some (JArr xs) \<and> JStr t \<in> set xs \<and>
    lower t = InFlightState_value ist \<and> t \<noteq> InFlightState_value ist
      \<longrightarrow> (\<exists>e. from_dict lib in_dict = Inl e))"
proof (intro conjI impI)
  assume a: "from_dict lib in_dict = Inr r \<and> strip (lower s) = OCMState_value st"
  have ne: "OCMState_value st \<noteq> []" by (cases st) simp_all
  let ?d = "in_dict(''ocm_state'' \<mapsto> Some s)"
  have m: "mandatory_fields lib ?d = mandatory_fields lib in_dict"
    by (simp add: mandatory_fields_def getitem_def)
  have p: "parse_ocm_inflight_states lib ?d = parse_ocm_inflight_states lib in_dict"
    by (simp add: parse_ocm_inflight_states_def getitem_def fun_eq_iff)
  have u: "getitem ?d ''log_download_url'' = getitem in_dict ''log_download_url''"
    by (simp add: getitem_def)
  from a obtain ts c name logs passed failures st0 ifs state inflight url where
    f1: "mandatory_fields lib in_dict = Inr (ts, c)" and
    f2: "try_body in_dict = Inr (name, logs, passed, failures, st0, ifs)" and
    f4: "parse_ocm_inflight_states lib in_dict ifs = Inr inflight" and
    f5: "in_dict ''log_download_url'' = Some url" and
    f6: "r = \<lparr>timestamp = ts, cid = c, cname = name, ocm_state = state,
            ocm_inflight_states = inflight, found_verifier_s3_logs = logs,
            found_all_tests_passed = passed, found_egress_failures = failures,
            log_download_url = (if is_valid_url lib url then url else None)\<rparr>"
    unfolding from_dict_Inr by blast
  have o: "optional_fields ?d = Inr (name, logs, passed, failures, strip (lower s), ifs)"
    using try_body_update [OF f2] by (simp add: optional_fields_def)
  have q: "parse_ocm_state (strip (lower s)) = Inr (Some st)"
    using parse_ocm_state_Inr [of "lower s" "Some st"] a ne by auto
  show "from_dict lib ?d = Inr (r\<lparr>ocm_state := Some st\<rparr>)"
    unfolding from_dict_def m p u by (simp add: f1 o q f4 f5 f6 getitem_def)
next
  assume a: "in_dict ''ocm_inflight_states'' = Some (Some raw) \<and> strip raw \<noteq> [] \<and>
    json_loads lib raw = Some (JArr xs) \<and> JStr t \<in> set xs \<and>
    lower t = InFlightState_value ist \<and> t \<noteq> InFlightState_value ist"
  then have s: "in_dict ''ocm_inflight_states'' = Some (Some raw)" by simp
  have n: "\<forall>st'. t \<noteq> InFlightState_value st'"
    using a lower_InFlightState_value InFlightState_value_inj by metis
  have "from_dict lib in_dict \<noteq> Inr r'" for r'
  proof
    assume "from_dict lib in_dict = Inr r'"
    then have "parse_ocm_inflight_states lib in_dict (strip raw) = Inr (ocm_inflight_states r')"
      using from_dict_ocm_inflight_states [of lib in_dict r'] a by auto
    then show False using a n
      by (auto simp add: parse_ocm_inflight_states_Inr [where d = in_dict and s = raw] s iterate_def)
  qed
  then show "\<exists>e. from_dict lib in_dict = Inl e" by (simp add: not_Inr_Inl [symmetric])
qed

text \<open>
  The lifecycle state " READY " is accepted as \<open>READY\<close>; the in-flight state "PASSED"
  is refused.
\<close>

theorem state_normalisation_asymmetry_witness:
  \<open>from_dict sample_library sample_row = Inr sample_record \<and>
   strip (lower '' READY '') = OCMState_value READY \<and>
   from_dict sample_library (sample_row(''ocm_state'' \<mapsto> Some '' READY ''))
     = Inr (sample_record\<lparr>ocm_state := Some READY\<rparr>) \<and>
   lower ''PASSED'' = InFlightState_value IF_PASSED \<and>
   (\<exists>e. from_dict sample_library
          (sample_row(''ocm_inflight_states'' \<mapsto> Some ''["PASSED"]'')) = Inl e)\<close>
proof -
  let ?r2 = \<open>sample_row(''ocm_inflight_states'' \<mapsto> Some ''["PASSED"]'')\<close>
  have h1: "from_dict sample_library sample_row = Inr sample_record" by code_simp
  have h2: "strip (lower '' READY '') = OCMState_value READY" by code_simp
  have h3: \<open>?r2 ''ocm_inflight_states'' = Some (Some ''["PASSED"]'') \<and>
            strip ''["PASSED"]'' \<noteq> [] \<and>
            json_loads sample_library ''["PASSED"]'' = Some (JArr [JStr ''PASSED'']) \<and>
            JStr ''PASSED'' \<in> set [JStr ''PASSED''] \<and>
            lower ''PASSED'' = InFlightState_value IF_PASSED \<and>
            ''PASSED'' \<noteq> InFlightState_value IF_PASSED\<close>
    by code_simp
  have c1: "from_dict sample_library (sample_row(''ocm_state'' \<mapsto> Some '' READY ''))
     = Inr (sample_record\<lparr>ocm_state := Some READY\<rparr>)"
    using h1 h2
      state_normalisation_asymmetry [of sample_library sample_row sample_record "'' READY ''" READY]
    by blast
  have c2: "\<exists>e. from_dict sample_library ?r2 = Inl e"
    using h3
      state_normalisation_asymmetry [of sample_library ?r2 _ _ _ \<open>''["PASSED"]''\<close>
        "[JStr ''PASSED'']" "''PASSED''" IF_PASSED]
    by blast
  show ?thesis using h1 h2 h3 c1 c2 by simp
qed

section \<open>Results: the order of observations\<close>

text \<open>
  C9, as stated: any two parsed observations are comparable. The sample row and the same
  row with the timestamp written without a zone both parse; the first timestamp is
  aware, the second naive, and both \<open>__lt__\<close> and \<open>__gt__\<close> raise TypeError on the
  pair.
\<close>

theorem total_order_counterexample:
  "from_dict sample_library sample_row = Inr sample_record \<and>
   from_dict sample_library (sample_row(''timestamp'' \<mapsto> Some ''2023-06-01T12:00:00''))
     = Inr (sample_record\<lparr>timestamp := \<lparr>wall = 63821217600000000, utcoffset = None\<rparr>\<rparr>) \<and>
   cvr_lt sample_record
     (sample_record\<lparr>timestamp := \<lparr>wall = 63821217600000000, utcoffset = None\<rparr>\<rparr>)
     = Inl TypeError \<and>
   cvr_gt sample_record
     (sample_record\<lparr>timestamp := \<lparr>wall = 63821217600000000, utcoffset = None\<rparr>\<rparr>)
     = Inl TypeError"
  by code_simp

text \<open>
  C9, amended: two observations whose timestamps are both naive or both aware are in
  exactly one of the three relations less than, greater than, same instant; comparing an
  observation with a naive timestamp and one with an aware timestamp raises TypeError;
  and in every case the result depends on the two timestamps only.
\<close>

theorem observation_order:
  "(comparable (timestamp a) (timestamp b) \<longrightarrow>
      (\<exists>lt gt. cvr_lt a b = Inr lt \<and> cvr_gt a b = Inr gt \<and>
         ((lt \<and> \<not> gt \<and> instant (timestamp a) \<noteq> instant (timestamp b)) \<or>
          (\<not> lt \<and> gt \<and> instant (timestamp a) \<noteq> instant (timestamp b)) \<or>
          (\<not> lt \<and> \<not> gt \<and> instant (timestamp a) = instant (timestamp b))))) \<and>
   (\<not> comparable (timestamp a) (timestamp b) \<longrightarrow>
      cvr_lt a b = Inl TypeError \<and> cvr_gt a b = Inl TypeError) \<and>
   (timestamp a = timestamp a' \<and> timestamp b = timestamp b' \<longrightarrow>
      cvr_lt a b = cvr_lt a' b' \<and> cvr_gt a b = cvr_gt a' b')"
  by (auto simp add: cvr_lt_def cvr_gt_def datetime_lt_def datetime_gt_def)

text \<open>
  Two aware timestamps a day apart are ordered; an aware and a naive one are not
  comparable.
\<close>

theorem observation_order_witness:
  "comparable (timestamp sample_record)
     (timestamp (sample_record\<lparr>timestamp := \<lparr>wall = 63821304000000000, utcoffset = Some 0\<rparr>\<rparr>)) \<and>
   cvr_lt sample_record
     (sample_record\<lparr>timestamp := \<lparr>wall = 63821304000000000, utcoffset = Some 0\<rparr>\<rparr>) = Inr True \<and>
   cvr_gt sample_record
     (sample_record\<lparr>timestamp := \<lparr>wall = 63821304000000000, utcoffset = Some 0\<rparr>\<rparr>) = Inr False \<and>
   \<not> comparable (timestamp sample_record)
     (timestamp (sample_record\<lparr>timestamp := \<lparr>wall = 63821217600000000, utcoffset = None\<rparr>\<rparr>)) \<and>
   cvr_lt sample_record
     (sample_record\<lparr>timestamp := \<lparr>wall = 63821217600000000, utcoffset = None\<rparr>\<rparr>)
     = Inl TypeError"
proof -
  let ?b = "sample_record\<lparr>timestamp := \<lparr>wall = 63821304000000000, utcoffset = Some 0\<rparr>\<rparr>"
  let ?c = "sample_record\<lparr>timestamp := \<lparr>wall = 63821217600000000, utcoffset = None\<rparr>\<rparr>"
  have h1: "comparable (timestamp sample_record) (timestamp ?b)" by code_simp
  have h2: "\<not> comparable (timestamp sample_record) (timestamp ?c)" by code_simp
  have h3: "instant (timestamp sample_record) < instant (timestamp ?b)" by code_simp
  have c1: "\<exists>lt gt. cvr_lt sample_record ?b = Inr lt \<and> cvr_gt sample_record ?b = Inr gt \<and>
         ((lt \<and> \<not> gt \<and> instant (timestamp sample_record) \<noteq> instant (timestamp ?b)) \<or>
          (\<not> lt \<and> gt \<and> instant (timestamp sample_record) \<noteq> instant (timestamp ?b)) \<or>
          (\<not> lt \<and> \<not> gt \<and> instant (timestamp sample_record) = instant (timestamp ?b)))"
    using h1 observation_order [of sample_record ?b] by blast
  have c2: "cvr_lt sample_record ?c = Inl TypeError"
    using h2 observation_order [of sample_record ?c] by blast
  have c3: "cvr_lt sample_record ?b = Inr True \<and> cvr_gt sample_record ?b = Inr False"
    by code_simp
  show ?thesis using h1 h2 c1 c2 c3 by simp
qed

section \<open>Lemmas about merge and the reading loop\<close>

lemma sticky_true_idem: "sticky_true (sticky_true a b) b = sticky_true a b"
  by (auto simp add: sticky_true_def)

lemma unanimity_idem: "unanimity (unanimity a b) b = unanimity a b"
  by (auto simp add: unanimity_def)

lemma merge_Inr:
  assumes "merge a b = Inr m"
  shows "found_egress_failures m = sticky_true (found_egress_failures a) (found_egress_failures b)"
    and "found_all_tests_passed m = unanimity (found_all_tests_passed a) (found_all_tests_passed b)"
    and "comparable (timestamp m) (timestamp a)"
    and "comparable (timestamp a) (timestamp b)"
  using assms
  by (auto simp add: merge_def cvr_gt_def datetime_gt_def comparable_def Let_def
      split: if_splits)

lemma merge_total:
  assumes "comparable (timestamp a) (timestamp b)"
  shows "\<exists>m. merge a b = Inr m"
  using assms by (auto simp add: merge_def cvr_gt_def datetime_gt_def comparable_def)

lemma merge_all_failures:
  "merge_all x xs = Inr m \<Longrightarrow>
   found_egress_failures m =
     (if \<exists>ob \<in> set (x # xs). found_egress_failures ob = Some True then Some True
      else if \<exists>ob \<in> set (x # xs). found_egress_failures ob = Some False then Some False
      else None)"
proof (induction xs arbitrary: x)
  case Nil
  then show ?case by (cases "found_egress_failures x") auto
next
  case (Cons a xs)
  then obtain m1 where m1: "merge x a = Inr m1" and rest: "merge_all m1 xs = Inr m"
    by (auto simp add: and_then_Inr_iff)
  have f: "found_egress_failures m1 =
      sticky_true (found_egress_failures x) (found_egress_failures a)"
    using merge_Inr(1) [OF m1] .
  show ?case
    unfolding Cons.IH [OF rest]
    by (cases "found_egress_failures x"; cases "found_egress_failures a")
       (auto simp add: f sticky_true_def)
qed

lemma merge_all_passed:
  "merge_all x xs = Inr m \<Longrightarrow>
   found_all_tests_passed m =
     (if \<exists>ob \<in> set (x # xs). found_all_tests_passed ob = Some False then Some False
      else if \<forall>ob \<in> set (x # xs). found_all_tests_passed ob = Some True then Some True
      else None)"
proof (induction xs arbitrary: x)
  case Nil
  then show ?case by (cases "found_all_tests_passed x") auto
next
  case (Cons a xs)
  then obtain m1 where m1: "merge x a = Inr m1" and rest: "merge_all m1 xs = Inr m"
    by (auto simp add: and_then_Inr_iff)
  have f: "found_all_tests_passed m1 =
      unanimity (found_all_tests_passed x) (found_all_tests_passed a)"
    using merge_Inr(2) [OF m1] .
  show ?case
    unfolding Cons.IH [OF rest]
    by (cases "found_all_tests_passed x"; cases "found_all_tests_passed a")
       (auto simp add: f unanimity_def)
qed

lemma comparable_trans:
  "comparable a b \<Longrightarrow> comparable b c \<Longrightarrow> comparable a c"
  by (auto simp add: comparable_def)

lemma merge_all_total:
  "\<forall>ob \<in> set xs. comparable (timestamp x) (timestamp ob) \<Longrightarrow> \<exists>m. merge_all x xs = Inr m"
proof (induction xs arbitrary: x)
  case Nil
  then show ?case by simp
next
  case (Cons a xs)
  then obtain m1 where m1: "merge x a = Inr m1"
    using merge_total [of x a] by auto
  have "\<forall>ob \<in> set xs. comparable (timestamp m1) (timestamp ob)"
    using merge_Inr(3) [OF m1] Cons.prems by (auto intro: comparable_trans)
  then show ?case using Cons.IH [of m1] m1 by simp
qed










section \<open>Results: merge\<close>

text \<open>
  C3: merging an observation into a record and then merging the same observation into
  the result gives the result of the first merge, in every field; when the first merge
  raises, so does the whole.
\<close>

theorem merge_idempotent:
  "and_then (merge a b) (\<lambda>m. merge m b) = merge a b"
proof (cases "comparable (timestamp b) (timestamp a)")
  case False
  then show ?thesis by (simp add: merge_def cvr_gt_def datetime_gt_def)
next
  case True
  show ?thesis
  proof (cases "instant (timestamp b) > instant (timestamp a)")
    case newer: True
    with True show ?thesis
      by (simp add: merge_def cvr_gt_def datetime_gt_def comparable_def Let_def
          sticky_true_idem unanimity_idem split: option.splits)
  next
    case older: False
    with True show ?thesis
      by (simp add: merge_def cvr_gt_def datetime_gt_def comparable_def Let_def
          sticky_true_idem unanimity_idem split: option.splits)
  qed
qed

text \<open>
  C4: two folds of the same observations, in any two orders, agree on
  \<open>found_egress_failures\<close> and \<open>found_all_tests_passed\<close>; the first is true
  exactly when some observation reports true, the second is true only if every
  observation reports true and is false as soon as one reports false; and the fold
  returns a record when the timestamps are all naive or all aware.
\<close>

theorem fold_order_independent:
  "(set (x # xs) = set (y # ys) \<and> merge_all x xs = Inr m \<and> merge_all y ys = Inr m'
      \<longrightarrow> found_egress_failures m = found_egress_failures m' \<and>
          found_all_tests_passed m = found_all_tests_passed m') \<and>
   (merge_all x xs = Inr m
      \<longrightarrow> (found_egress_failures m = Some True)
            = (\<exists>ob \<in> set (x # xs). found_egress_failures ob = Some True) \<and>
          (found_all_tests_passed m = Some True
             \<longrightarrow> (\<forall>ob \<in> set (x # xs). found_all_tests_passed ob = Some True)) \<and>
          ((\<exists>ob \<in> set (x # xs). found_all_tests_passed ob = Some False)
             \<longrightarrow> found_all_tests_passed m = Some False)) \<and>
   ((\<forall>ob \<in> set xs. comparable (timestamp x) (timestamp ob))
      \<longrightarrow> (\<exists>r. merge_all x xs = Inr r))"
proof (intro conjI impI)
  assume a: "set (x # xs) = set (y # ys) \<and> merge_all x xs = Inr m \<and> merge_all y ys = Inr m'"
  then have x: "merge_all x xs = Inr m" and y: "merge_all y ys = Inr m'"
    and s: "set (x # xs) = set (y # ys)" by simp_all
  show "found_egress_failures m = found_egress_failures m'"
    unfolding merge_all_failures [OF x] merge_all_failures [OF y] s ..
  show "found_all_tests_passed m = found_all_tests_passed m'"
    unfolding merge_all_passed [OF x] merge_all_passed [OF y] s ..
next
  assume x: "merge_all x xs = Inr m"
  show "(found_egress_failures m = Some True)
            = (\<exists>ob \<in> set (x # xs). found_egress_failures ob = Some True)"
    unfolding merge_all_failures [OF x] by simp
next
  assume x: "merge_all x xs = Inr m" and "found_all_tests_passed m = Some True"
  then show "\<forall>ob \<in> set (x # xs). found_all_tests_passed ob = Some True"
    unfolding merge_all_passed [OF x] by (simp split: if_splits)
next
  assume x: "merge_all x xs = Inr m"
    and "\<exists>ob \<in> set (x # xs). found_all_tests_passed ob = Some False"
  then show "found_all_tests_passed m = Some False"
    unfolding merge_all_passed [OF x] by simp
next
  assume "\<forall>ob \<in> set xs. comparable (timestamp x) (timestamp ob)"
  then show "\<exists>r. merge_all x xs = Inr r" by (rule merge_all_total)
qed

text \<open>
  The two observations of the sample cluster folded in both orders: the display names
  differ, the two fields do not.
\<close>

theorem fold_order_independent_witness:
  "merge_all sample_record [sample_later] = Inr sample_merged \<and>
   merge_all sample_later [sample_record] = Inr (sample_merged\<lparr>cname := Some ''prod-2''\<rparr>) \<and>
   found_egress_failures sample_merged
     = found_egress_failures (sample_merged\<lparr>cname := Some ''prod-2''\<rparr>) \<and>
   found_all_tests_passed sample_merged
     = found_all_tests_passed (sample_merged\<lparr>cname := Some ''prod-2''\<rparr>) \<and>
   found_egress_failures sample_merged = Some True \<and>
   found_all_tests_passed sample_merged = Some False \<and>
   (\<exists>r. merge_all sample_record [sample_later] = Inr r)"
proof -
  have h1: "merge_all sample_record [sample_later] = Inr sample_merged" by code_simp
  have h2: "merge_all sample_later [sample_record]
              = Inr (sample_merged\<lparr>cname := Some ''prod-2''\<rparr>)" by code_simp
  have h3: "set (sample_record # [sample_later]) = set (sample_later # [sample_record])"
    by auto
  have h4: "\<exists>ob \<in> set (sample_record # [sample_later]). found_egress_failures ob = Some True"
    by (simp add: sample_later_def)
  have h5: "\<exists>ob \<in> set (sample_record # [sample_later]). found_all_tests_passed ob = Some False"
    by (simp add: sample_record_def)
  have h6: "\<forall>ob \<in> set [sample_later]. comparable (timestamp sample_record) (timestamp ob)"
    by (simp add: sample_later_def sample_record_def comparable_def)
  note t = fold_order_independent [of sample_record "[sample_later]" sample_later
      "[sample_record]" sample_merged "sample_merged\<lparr>cname := Some ''prod-2''\<rparr>"]
  have c1: "found_egress_failures sample_merged
     = found_egress_failures (sample_merged\<lparr>cname := Some ''prod-2''\<rparr>) \<and>
   found_all_tests_passed sample_merged
     = found_all_tests_passed (sample_merged\<lparr>cname := Some ''prod-2''\<rparr>)"
    using t h1 h2 h3 by blast
  have c2: "found_egress_failures sample_merged = Some True"
    using t h1 h4 by blast
  have c3: "found_all_tests_passed sample_merged = Some False"
    using t h1 h5 by blast
  have c4: "\<exists>r. merge_all sample_record [sample_later] = Inr r"
    using t h6 by blast
  show ?thesis using h1 h2 c1 c2 c3 c4 by simp
qed

section \<open>Results: the hosted-control-plane lookup\<close>



end
